theory Spec2Isabelle
  imports Main
begin

section \<open>Data model\<close>

text \<open>
  The negotiation handlers of the car park client skill
  (\<^verbatim>\<open>packages/fetchai/skills/carpark_client/handlers.py\<close>).

  The handlers work on the strategy object (two lists and two flags), on the dialogue
  store, on the outbox and on the logger. All four are mutable objects reached through
  \<^verbatim>\<open>self.context\<close>; the model passes them along in one record and returns the record
  updated. An exception leaves the mutations made so far in place, so a failing call
  returns the error together with the state it was raised in.

  The strategy's decision methods, the message class and the dialogue classes are not
  part of the handler module. The decision methods are parameters (record \<open>policy\<close>);
  the proposal payload, the query and the terms are type variables \<open>'p\<close>, \<open>'q\<close>, \<open>'t\<close>.
\<close>

type_synonym address = string

datatype performative = CFP | PROPOSE | ACCEPT | DECLINE

text \<open>An inbound message with performative \<^verbatim>\<open>PROPOSE\<close>: what \<^verbatim>\<open>_handle_propose\<close> is given.\<close>

record 'p fipa_msg =
  msg_sender :: address
  msg_reference :: nat
  msg_proposal :: 'p

text \<open>An outbound message: a call for proposals or a reply.\<close>

record 'q out_msg =
  out_performative :: performative
  out_to :: address
  out_reference :: nat
  out_query :: "'q option"

text \<open>The dictionary appended to \<^verbatim>\<open>strategy.received_proposals\<close> (keys sender, message, decision).\<close>

record 'p carpark =
  sender :: address
  message :: "'p fipa_msg"
  decision :: "performative option"

datatype dialogue_state = INIT | CFP_SENT | PROPOSE_RECEIVED | ACCEPTED | DECLINED

record 't fipa_dialogue =
  counterparty :: address
  dstate :: dialogue_state
  terms :: "'t option"

datatype error = InvalidCounterparty | UnknownDialogue | ProtocolViolation

text \<open>One constructor per \<^verbatim>\<open>logger.info\<close> call of the module.\<close>

datatype 'p log_line =
    ReceivedProposal 'p address
  | MakingDecision
  | SendingDecision "performative option" address
  | NoAgentsFound
  | FoundAgentsStopping "address list"
  | FoundAgents "address list"
  | SendingCFP address
  | CFPsSent nat

text \<open>
  The operations performed on dialogues, in program order: opening a dialogue, writing its
  \<^verbatim>\<open>terms\<close> attribute, building a reply.
\<close>

datatype 't dialogue_op = Created nat address | TermsSet nat 't | Replied nat performative

text \<open>The methods of \<^verbatim>\<open>Strategy\<close> the handlers call.\<close>

record ('p, 'q, 't) policy =
  is_acceptable_proposal :: "'p \<Rightarrow> bool"
  is_affordable_proposal :: "'p \<Rightarrow> bool"
  get_cheapest_proposal :: "'p carpark list \<Rightarrow> 'p carpark"
  terms_from_proposal :: "'p \<Rightarrow> address \<Rightarrow> 't"
  get_service_query :: 'q
  get_acceptable_counterparties :: "address list \<Rightarrow> address list"

record ('p, 'q, 't) ctx =
  received_proposals :: "'p carpark list"
  sent_proposals :: "address list"
  is_searching :: bool
  is_stop_searching_on_result :: bool
  agent_address :: address
  fipa_dialogues :: "'t fipa_dialogue list"
  dialogue_ops :: "'t dialogue_op list"
  outbox :: "'q out_msg list"
  logger :: "'p log_line list"

type_synonym ('p, 'q, 't) outcome = "(error \<times> ('p, 'q, 't) ctx) + ('p, 'q, 't) ctx"

section \<open>Context operations\<close>

text \<open>Python's \<^verbatim>\<open>s[-5:]\<close>: the last five characters, the whole string when it is shorter.\<close>

definition last5 :: "string \<Rightarrow> string" where
  "last5 s = drop (length s - 5) s"

definition info :: "'p log_line \<Rightarrow> ('p, 'q, 't) ctx \<Rightarrow> ('p, 'q, 't) ctx" where
  "info l c = c\<lparr>logger := logger c @ [l]\<rparr>"

definition put_message :: "'q out_msg \<Rightarrow> ('p, 'q, 't) ctx \<Rightarrow> ('p, 'q, 't) ctx" where
  "put_message m c = c\<lparr>outbox := outbox c @ [m]\<rparr>"

section \<open>Dialogues\<close>

text \<open>
  Modelled from the spec: the dialogue classes (\<^verbatim>\<open>FipaDialogues.get_dialogue\<close>,
  \<^verbatim>\<open>FipaDialogues.create\<close>, \<^verbatim>\<open>FipaDialogue.reply\<close>) are imported from the generic buyer
  skill and are not in the handler module. The store is a list; the correlation id of a
  dialogue is its index, so a new dialogue gets the next free index.
  Lookup resolves a dialogue by the correlation id of a message and fails with
  \<open>UnknownDialogue\<close> when there is none.
\<close>

definition get_dialogue :: "'t fipa_dialogue list \<Rightarrow> 'p fipa_msg \<Rightarrow> error + 't fipa_dialogue" where
  "get_dialogue ds m =
     (if msg_reference m < length ds then Inr (ds ! msg_reference m) else Inl UnknownDialogue)"

text \<open>
  Modelled from the spec: the legal transitions a reply can request,
  \<open>PROPOSE_RECEIVED \<rightarrow> ACCEPTED | DECLINED\<close>; every other request is a protocol violation.
\<close>

fun legal_reply :: "dialogue_state \<Rightarrow> performative \<Rightarrow> dialogue_state option" where
  "legal_reply PROPOSE_RECEIVED ACCEPT = Some ACCEPTED"
| "legal_reply PROPOSE_RECEIVED DECLINE = Some DECLINED"
| "legal_reply _ _ = None"

text \<open>
  Modelled from the spec: \<^verbatim>\<open>reply\<close> builds the correlated reply to the target message and
  advances the dialogue. The handler passes the decision slot as performative, which
  may be unset; no performative is no legal transition.
\<close>

definition reply ::
  "performative option \<Rightarrow> 'p fipa_msg \<Rightarrow> 't fipa_dialogue \<Rightarrow> error + ('q out_msg \<times> 't fipa_dialogue)" where
  "reply perf target_message d =
     (case perf of
        None \<Rightarrow> Inl ProtocolViolation
      | Some p \<Rightarrow>
          (case legal_reply (dstate d) p of
             None \<Rightarrow> Inl ProtocolViolation
           | Some s \<Rightarrow>
               Inr (\<lparr>out_performative = p, out_to = counterparty d,
                     out_reference = msg_reference target_message, out_query = None\<rparr>,
                    d\<lparr>dstate := s\<rparr>)))"

text \<open>
  Modelled from the spec: \<^verbatim>\<open>create\<close> opens a dialogue in state \<open>CFP_SENT\<close> under a fresh
  correlation id and builds the outbound message; it fails with \<open>InvalidCounterparty\<close>
  when the counterparty is empty or the agent itself.
\<close>

definition create ::
  "address \<Rightarrow> address \<Rightarrow> 'q \<Rightarrow> 't fipa_dialogue list \<Rightarrow> error + ('q out_msg \<times> 't fipa_dialogue list)" where
  "create self cp query ds =
     (if cp = [] \<or> cp = self then Inl InvalidCounterparty
      else Inr (\<lparr>out_performative = CFP, out_to = cp, out_reference = length ds,
                 out_query = Some query\<rparr>,
                ds @ [\<lparr>counterparty = cp, dstate = CFP_SENT, terms = None\<rparr>]))"

section \<open>The proposal handler\<close>

text \<open>
  Lines 55 to 69 of \<^verbatim>\<open>_handle_propose\<close>: log the proposal, append the dictionary. The
  decision slot is \<^verbatim>\<open>DECLINE\<close> when the proposal is not acceptable or not affordable and
  \<^verbatim>\<open>None\<close> otherwise.
\<close>

definition buffer_proposal ::
  "('p, 'q, 't) policy \<Rightarrow> 'p fipa_msg \<Rightarrow> ('p, 'q, 't) ctx \<Rightarrow> ('p, 'q, 't) ctx" where
  "buffer_proposal strategy fipa_msg c =
     (let c1 = info (ReceivedProposal (msg_proposal fipa_msg) (last5 (msg_sender fipa_msg))) c
      in c1\<lparr>received_proposals := received_proposals c1 @
               [\<lparr>sender = msg_sender fipa_msg,
                 message = fipa_msg,
                 decision =
                   (if \<not> is_acceptable_proposal strategy (msg_proposal fipa_msg)
                       \<or> \<not> is_affordable_proposal strategy (msg_proposal fipa_msg)
                    then Some DECLINE else None)\<rparr>]\<rparr>)"

text \<open>
  Lines 74 to 85. \<^verbatim>\<open>undecided_proposals\<close> is a new list holding the same dictionaries as
  \<^verbatim>\<open>received_proposals\<close>, so the assignment in the loop changes the entries of the buffer.
  The model keeps the references as positions in the buffer: \<open>undecided_refs\<close> are the
  positions whose decision is unset, and the loop writes through them.
\<close>

definition undecided_refs :: "'p carpark list \<Rightarrow> nat list" where
  "undecided_refs rs = filter (\<lambda>i. decision (rs ! i) = None) [0..<length rs]"

fun mark_loop :: "'p carpark \<Rightarrow> nat list \<Rightarrow> 'p carpark list \<Rightarrow> 'p carpark list" where
  "mark_loop cheapest_proposal [] rs = rs"
| "mark_loop cheapest_proposal (i # refs) rs =
     mark_loop cheapest_proposal refs
       (rs[i := (rs ! i)\<lparr>decision :=
                 Some (if sender cheapest_proposal = sender (rs ! i) then ACCEPT else DECLINE)\<rparr>])"

definition decide :: "('p, 'q, 't) policy \<Rightarrow> 'p carpark list \<Rightarrow> 'p carpark list" where
  "decide strategy rs =
     (let undecided = undecided_refs rs
      in if undecided \<noteq> []
         then mark_loop (get_cheapest_proposal strategy (map ((!) rs) undecided)) undecided rs
         else rs)"

text \<open>
  One iteration of the loop of \<^verbatim>\<open>_handle_propose_send\<close> (lines 96 to 111): look the
  dialogue up, log the decision, write the terms when the decision is \<^verbatim>\<open>ACCEPT\<close>, build
  the reply, put it into the outbox.
\<close>

definition propose_send_step ::
  "('p, 'q, 't) policy \<Rightarrow> 'p carpark \<Rightarrow> ('p, 'q, 't) ctx \<Rightarrow> ('p, 'q, 't) outcome" where
  "propose_send_step strategy carpark c =
     (case get_dialogue (fipa_dialogues c) (message carpark) of
        Inl e \<Rightarrow> Inl (e, c)
      | Inr fipa_dialogue \<Rightarrow>
          (let r = msg_reference (message carpark);
               c1 = info (SendingDecision (decision carpark) (last5 (sender carpark))) c;
               (d1, c2) =
                 (if decision carpark = Some ACCEPT
                  then (let t = terms_from_proposal strategy
                                  (msg_proposal (message carpark)) (sender carpark)
                        in (fipa_dialogue\<lparr>terms := Some t\<rparr>,
                            c1\<lparr>fipa_dialogues := (fipa_dialogues c1)[r := fipa_dialogue\<lparr>terms := Some t\<rparr>],
                               dialogue_ops := dialogue_ops c1 @ [TermsSet r t]\<rparr>))
                  else (fipa_dialogue, c1))
           in case reply (decision carpark) (message carpark) d1 of
                Inl e \<Rightarrow> Inl (e, c2)
              | Inr (msg, d2) \<Rightarrow>
                  Inr (put_message msg
                         (c2\<lparr>fipa_dialogues := (fipa_dialogues c2)[r := d2],
                             dialogue_ops := dialogue_ops c2 @ [Replied r (out_performative msg)]\<rparr>))))"

fun propose_send_loop ::
  "('p, 'q, 't) policy \<Rightarrow> 'p carpark list \<Rightarrow> ('p, 'q, 't) ctx \<Rightarrow> ('p, 'q, 't) outcome" where
  "propose_send_loop strategy [] c = Inr c"
| "propose_send_loop strategy (carpark # rest) c =
     (case propose_send_step strategy carpark c of
        Inl e \<Rightarrow> Inl e
      | Inr c' \<Rightarrow> propose_send_loop strategy rest c')"

text \<open>\<^verbatim>\<open>_handle_propose_send\<close>: the loop, then both lists are replaced by empty ones.\<close>

definition handle_propose_send ::
  "('p, 'q, 't) policy \<Rightarrow> ('p, 'q, 't) ctx \<Rightarrow> ('p, 'q, 't) outcome" where
  "handle_propose_send strategy c =
     (case propose_send_loop strategy (received_proposals c) c of
        Inl e \<Rightarrow> Inl e
      | Inr c' \<Rightarrow> Inr (c'\<lparr>received_proposals := [], sent_proposals := []\<rparr>))"

text \<open>
  \<^verbatim>\<open>_handle_propose\<close>. Its second argument, the dialogue the caller has resolved, is not
  used by the body and is left out.
\<close>

definition handle_propose ::
  "('p, 'q, 't) policy \<Rightarrow> 'p fipa_msg \<Rightarrow> ('p, 'q, 't) ctx \<Rightarrow> ('p, 'q, 't) outcome" where
  "handle_propose strategy fipa_msg c =
     (let c1 = buffer_proposal strategy fipa_msg c
      in if length (received_proposals c1) = length (sent_proposals c1)
         then handle_propose_send strategy
                ((info MakingDecision c1)\<lparr>received_proposals := decide strategy (received_proposals c1)\<rparr>)
         else Inr c1)"

section \<open>The search handler\<close>

text \<open>The loop of \<^verbatim>\<open>_handle_search\<close> (lines 143 to 151).\<close>

fun cfp_loop :: "'q \<Rightarrow> address list \<Rightarrow> ('p, 'q, 't) ctx \<Rightarrow> ('p, 'q, 't) outcome" where
  "cfp_loop query [] c = Inr c"
| "cfp_loop query (cp # rest) c =
     (case create (agent_address c) cp query (fipa_dialogues c) of
        Inl e \<Rightarrow> Inl (e, c)
      | Inr (cfp_msg, ds) \<Rightarrow>
          cfp_loop query rest
            (info (SendingCFP (last5 cp))
               (put_message cfp_msg
                  (c\<lparr>fipa_dialogues := ds,
                     dialogue_ops := dialogue_ops c @ [Created (out_reference cfp_msg) cp],
                     sent_proposals := sent_proposals c @ [cp]\<rparr>))))"

definition handle_search ::
  "('p, 'q, 't) policy \<Rightarrow> address list \<Rightarrow> ('p, 'q, 't) ctx \<Rightarrow> ('p, 'q, 't) outcome" where
  "handle_search strategy agents c =
     (if length agents = 0 then Inr (info NoAgentsFound c)
      else
        (let short = map last5 agents;
             c1 = (if is_stop_searching_on_result c
                   then (info (FoundAgentsStopping short) c)\<lparr>is_searching := False\<rparr>
                   else info (FoundAgents short) c);
             query = get_service_query strategy;
             counterparties = get_acceptable_counterparties strategy agents
         in case cfp_loop query counterparties c1 of
              Inl e \<Rightarrow> Inl e
            | Inr c2 \<Rightarrow> Inr (info (CFPsSent (length counterparties)) c2)))"

section \<open>The dispatcher in front of the proposal handler\<close>

text \<open>
  Modelled from the spec: \<^verbatim>\<open>_handle_propose\<close> is called by the generic handler of the
  buyer skill, which is not in the handler module, with the dialogue already resolved.
  The spec's \<^verbatim>\<open>onProposalReceived\<close> covers both: it resolves the dialogue (failing with
  \<open>UnknownDialogue\<close> when there is none), fails with \<open>ProtocolViolation\<close> when the
  dialogue is not in \<open>CFP_SENT\<close>, and otherwise advances the dialogue to
  \<open>PROPOSE_RECEIVED\<close> and buffers the proposal. A failure leaves the state as it was.
\<close>

definition on_proposal_received ::
  "('p, 'q, 't) policy \<Rightarrow> 'p fipa_msg \<Rightarrow> ('p, 'q, 't) ctx \<Rightarrow> ('p, 'q, 't) outcome" where
  "on_proposal_received strategy fipa_msg c =
     (case get_dialogue (fipa_dialogues c) fipa_msg of
        Inl e \<Rightarrow> Inl (e, c)
      | Inr d \<Rightarrow>
          if dstate d \<noteq> CFP_SENT then Inl (ProtocolViolation, c)
          else handle_propose strategy fipa_msg
                 (c\<lparr>fipa_dialogues :=
                      (fipa_dialogues c)[msg_reference fipa_msg := d\<lparr>dstate := PROPOSE_RECEIVED\<rparr>]\<rparr>))"

section \<open>Observations on states and runs\<close>

text \<open>The state a call ends in, whether it returns or raises.\<close>

definition state_of :: "('p, 'q, 't) outcome \<Rightarrow> ('p, 'q, 't) ctx" where
  "state_of r = (case r of Inl (e, c) \<Rightarrow> c | Inr c \<Rightarrow> c)"


text \<open>
  The decision pass announces itself in the log (line 73), so the number of passes made
  so far is the number of these lines.
\<close>

definition decisions_made :: "('p, 'q, 't) ctx \<Rightarrow> nat" where
  "decisions_made c = length (filter (\<lambda>l. l = MakingDecision) (logger c))"

text \<open>A sequence of calls of the proposal handler; an exception ends it.\<close>

fun run_proposals ::
  "('p, 'q, 't) policy \<Rightarrow> 'p fipa_msg list \<Rightarrow> ('p, 'q, 't) ctx \<Rightarrow> ('p, 'q, 't) outcome" where
  "run_proposals strategy [] c = Inr c"
| "run_proposals strategy (m # ms) c =
     (case handle_propose strategy m c of
        Inl e \<Rightarrow> Inl e
      | Inr c' \<Rightarrow> run_proposals strategy ms c')"

text \<open>Sequencing of handler calls in the examples.\<close>

definition and_then ::
  "('p, 'q, 't) outcome \<Rightarrow> (('p, 'q, 't) ctx \<Rightarrow> ('p, 'q, 't) outcome) \<Rightarrow> ('p, 'q, 't) outcome" where
  "and_then r f = (case r of Inl e \<Rightarrow> Inl e | Inr c \<Rightarrow> f c)"

text \<open>The decision slot a proposal is buffered with.\<close>

definition pending_slot :: "('p, 'q, 't) policy \<Rightarrow> 'p fipa_msg \<Rightarrow> performative option" where
  "pending_slot strategy fipa_msg =
     (if is_acceptable_proposal strategy (msg_proposal fipa_msg)
         \<and> is_affordable_proposal strategy (msg_proposal fipa_msg)
      then None else Some DECLINE)"

text \<open>What the decision pass does to one entry of the buffer, given the cheapest proposal.\<close>

definition mark :: "'p carpark \<Rightarrow> 'p carpark \<Rightarrow> 'p carpark" where
  "mark ch x =
     (if decision x = None
      then x\<lparr>decision := Some (if sender ch = sender x then ACCEPT else DECLINE)\<rparr>
      else x)"

definition accepts :: "'p carpark list \<Rightarrow> nat" where
  "accepts rs = length (filter (\<lambda>x. decision x = Some ACCEPT) rs)"

definition declines :: "'p carpark list \<Rightarrow> nat" where
  "declines rs = length (filter (\<lambda>x. decision x = Some DECLINE) rs)"

text \<open>A buffered proposal can be replied to: its dialogue exists, awaits the decision, and the decision is made.\<close>

definition repliable :: "'t fipa_dialogue list \<Rightarrow> 'p carpark \<Rightarrow> bool" where
  "repliable ds x \<longleftrightarrow>
     msg_reference (message x) < length ds
     \<and> dstate (ds ! msg_reference (message x)) = PROPOSE_RECEIVED
     \<and> (decision x = Some ACCEPT \<or> decision x = Some DECLINE)"

text \<open>The reply, the dialogue operations and the final dialogue of one buffered proposal.\<close>

definition fanout_reply :: "'t fipa_dialogue list \<Rightarrow> 'p carpark \<Rightarrow> performative \<Rightarrow> 'q out_msg" where
  "fanout_reply ds x p =
     \<lparr>out_performative = p, out_to = counterparty (ds ! msg_reference (message x)),
      out_reference = msg_reference (message x), out_query = None\<rparr>"

definition fanout_ops :: "('p, 'q, 't) policy \<Rightarrow> 'p carpark \<Rightarrow> 't dialogue_op list" where
  "fanout_ops strategy x =
     (case decision x of
        None \<Rightarrow> []
      | Some p \<Rightarrow>
          (if p = ACCEPT
           then [TermsSet (msg_reference (message x))
                   (terms_from_proposal strategy (msg_proposal (message x)) (sender x))]
           else [])
          @ [Replied (msg_reference (message x)) p])"

definition fanout_dialogue ::
  "('p, 'q, 't) policy \<Rightarrow> 'p carpark \<Rightarrow> 't fipa_dialogue \<Rightarrow> 't fipa_dialogue" where
  "fanout_dialogue strategy x d =
     (if decision x = Some ACCEPT
      then d\<lparr>terms := Some (terms_from_proposal strategy (msg_proposal (message x)) (sender x)),
             dstate := ACCEPTED\<rparr>
      else d\<lparr>dstate := DECLINED\<rparr>)"

section \<open>The registry client\<close>

text \<open>
  Modelled from the spec: \<^verbatim>\<open>request_api\<close> of the registry client
  (\<^verbatim>\<open>aea/cli/registry/utils.py\<close>) is not among the sources; only its tests are. The spec:
  network failures and non-2xx responses surface as user-facing CLI errors, a 409 surfaces
  the server's \<^verbatim>\<open>detail\<close> field, and a connection failure is reported, never retried.

  The network is the list of outcomes the successive attempts would get; one call of the
  client takes the first and leaves the rest, and an exhausted list is a server that does
  not respond. A parsed JSON body is a list of fields.
\<close>

type_synonym json = "(string \<times> string) list"

datatype attempt = ConnectionError | Response nat json

datatype cli_error = ServerNotResponding | Conflict "string option" | BadStatus nat

definition request_api :: "attempt list \<Rightarrow> (cli_error + json) \<times> attempt list" where
  "request_api net =
     (case net of
        [] \<Rightarrow> (Inl ServerNotResponding, [])
      | ConnectionError # rest \<Rightarrow> (Inl ServerNotResponding, rest)
      | Response status_code body # rest \<Rightarrow>
          (if 200 \<le> status_code \<and> status_code < 300 then Inr body
           else if status_code = 409 then Inl (Conflict (map_of body ''detail''))
           else Inl (BadStatus status_code),
           rest))"

section \<open>An example policy and example states\<close>

text \<open>
  Modelled from the spec: \<^verbatim>\<open>Strategy.get_cheapest_proposal\<close> is not in the handler module.
  The spec asks for the element of minimum cost, ties broken by the policy; here a proposal
  is its cost and the earliest of the cheapest wins. The handler calls the method on a
  non-empty list only.
\<close>

fun cheapest_from :: "nat carpark \<Rightarrow> nat carpark list \<Rightarrow> nat carpark" where
  "cheapest_from best [] = best"
| "cheapest_from best (x # xs) =
     cheapest_from (if msg_proposal (message x) < msg_proposal (message best) then x else best) xs"

fun cheapest :: "nat carpark list \<Rightarrow> nat carpark" where
  "cheapest (x # xs) = cheapest_from x xs"

text \<open>Every proposal is acceptable; a proposal is affordable up to the budget.\<close>

definition price_policy :: "nat \<Rightarrow> (nat, string, nat \<times> address) policy" where
  "price_policy budget =
     \<lparr>is_acceptable_proposal = (\<lambda>p. True),
      is_affordable_proposal = (\<lambda>p. p \<le> budget),
      get_cheapest_proposal = cheapest,
      terms_from_proposal = (\<lambda>p a. (p, a)),
      get_service_query = ''carpark'',
      get_acceptable_counterparties = (\<lambda>agents. agents)\<rparr>"

definition proposal_from :: "address \<Rightarrow> nat \<Rightarrow> nat \<Rightarrow> nat fipa_msg" where
  "proposal_from a r cost = \<lparr>msg_sender = a, msg_reference = r, msg_proposal = cost\<rparr>"

definition buffered :: "address \<Rightarrow> nat \<Rightarrow> nat \<Rightarrow> performative option \<Rightarrow> nat carpark" where
  "buffered a r cost d = \<lparr>sender = a, message = proposal_from a r cost, decision = d\<rparr>"

definition awaiting_decision :: "address \<Rightarrow> (nat \<times> address) fipa_dialogue" where
  "awaiting_decision a = \<lparr>counterparty = a, dstate = PROPOSE_RECEIVED, terms = None\<rparr>"

definition fresh :: "(nat, string, nat \<times> address) ctx" where
  "fresh =
     \<lparr>received_proposals = [], sent_proposals = [], is_searching = True,
      is_stop_searching_on_result = True, agent_address = ''buyer'',
      fipa_dialogues = [], dialogue_ops = [], outbox = [], logger = []\<rparr>"

text \<open>A round with calls for proposals sent to the given agents and the given proposals buffered.\<close>

definition round_of ::
  "address list \<Rightarrow> nat carpark list \<Rightarrow> (nat, string, nat \<times> address) ctx" where
  "round_of agents rs =
     fresh\<lparr>received_proposals := rs, sent_proposals := agents,
           fipa_dialogues := map awaiting_decision agents\<rparr>"




section \<open>Auxiliary facts\<close>

lemma filter_positions:
  "map ((!) xs) (filter (\<lambda>i. P (xs ! i)) [0..<length xs]) = filter P xs"
proof (induction xs rule: rev_induct)
  case Nil
  then show ?case by simp
next
  case (snoc x xs)
  let ?ys = "xs @ [x]"
  have f: "filter (\<lambda>i. P (?ys ! i)) [0..<length xs] = filter (\<lambda>i. P (xs ! i)) [0..<length xs]"
    by (rule filter_cong) (auto simp: nth_append)
  have m: "map ((!) ?ys) (filter (\<lambda>i. P (xs ! i)) [0..<length xs])
      = map ((!) xs) (filter (\<lambda>i. P (xs ! i)) [0..<length xs])"
    by (rule map_cong) (auto simp: nth_append)
  have "map ((!) ?ys) (filter (\<lambda>i. P (?ys ! i)) [0..<length ?ys])
      = map ((!) ?ys) (filter (\<lambda>i. P (?ys ! i)) [0..<length xs])
        @ map ((!) ?ys) (filter (\<lambda>i. P (?ys ! i)) [length xs])"
    by simp
  also have "map ((!) ?ys) (filter (\<lambda>i. P (?ys ! i)) [0..<length xs]) = filter P xs"
    unfolding f m by (rule snoc.IH)
  also have "map ((!) ?ys) (filter (\<lambda>i. P (?ys ! i)) [length xs]) = filter P [x]"
    by simp
  finally show ?case by simp
qed

lemma undecided_refs_nth: "map ((!) rs) (undecided_refs rs) = filter (\<lambda>c. decision c = None) rs"
  unfolding undecided_refs_def by (rule filter_positions)

lemma set_undecided_refs: "set (undecided_refs rs) = {i. i < length rs \<and> decision (rs ! i) = None}"
  by (auto simp: undecided_refs_def)

lemma mark_loop_length: "length (mark_loop ch refs rs) = length rs"
  by (induction refs arbitrary: rs) auto

lemma mark_loop_nth:
  "i < length rs \<Longrightarrow>
   mark_loop ch refs rs ! i =
     (if i \<in> set refs
      then (rs ! i)\<lparr>decision := Some (if sender ch = sender (rs ! i) then ACCEPT else DECLINE)\<rparr>
      else rs ! i)"
proof (induction refs arbitrary: rs)
  case Nil
  then show ?case by simp
next
  case (Cons r refs)
  then show ?case
    by (cases "r = i") (auto simp: nth_list_update)
qed

lemma decide_map:
  "decide strategy rs =
     map (mark (get_cheapest_proposal strategy (filter (\<lambda>c. decision c = None) rs))) rs"
proof (cases "undecided_refs rs = []")
  case True
  then have "\<forall>i<length rs. decision (rs ! i) \<noteq> None"
    using set_undecided_refs[of rs] by auto
  then have "\<forall>c\<in>set rs. decision c \<noteq> None"
    by (auto simp: in_set_conv_nth)
  then have "map (mark ch) rs = rs" for ch :: "'a carpark"
    by (induction rs) (auto simp: mark_def)
  with True show ?thesis by (simp add: decide_def)
next
  case False
  show ?thesis
    by (rule nth_equalityI)
       (use False in \<open>auto simp: decide_def Let_def mark_loop_length mark_loop_nth
          undecided_refs_nth set_undecided_refs mark_def\<close>)
qed

lemma distinct_map_Cons_neq: "distinct (map f (x # xs)) \<Longrightarrow> \<forall>y\<in>set xs. f y \<noteq> f x"
  by (metis distinct.simps(2) imageI list.simps(9) set_map)

lemma distinct_occurs_once:
  "distinct xs \<Longrightarrow> a \<in> set xs \<Longrightarrow> length (filter (\<lambda>x. x = a) xs) = 1"
proof (induction xs)
  case Nil
  then show ?case by simp
next
  case (Cons x xs)
  show ?case
  proof (cases "x = a")
    case True
    then have "a \<notin> set xs" using Cons.prems by simp
    then have "filter (\<lambda>x. x = a) xs = []" by (auto simp: filter_empty_conv)
    then show ?thesis using True by simp
  next
    case False
    then show ?thesis using Cons by simp
  qed
qed

lemma legal_reply_Some:
  "legal_reply s p = Some s' \<longleftrightarrow>
     s = PROPOSE_RECEIVED \<and> (p = ACCEPT \<and> s' = ACCEPTED \<or> p = DECLINE \<and> s' = DECLINED)"
  by (cases s; cases p) auto

lemma propose_send_step_ok:
  assumes "repliable (fipa_dialogues c) x"
  shows "propose_send_step strategy x c =
     Inr (c\<lparr>logger := logger c @ [SendingDecision (decision x) (last5 (sender x))],
            fipa_dialogues := (fipa_dialogues c)[msg_reference (message x) :=
               fanout_dialogue strategy x (fipa_dialogues c ! msg_reference (message x))],
            dialogue_ops := dialogue_ops c @ fanout_ops strategy x,
            outbox := outbox c @ [fanout_reply (fipa_dialogues c) x (the (decision x))]\<rparr>)"
  using assms
  by (auto simp: repliable_def propose_send_step_def get_dialogue_def reply_def info_def
      put_message_def fanout_dialogue_def fanout_ops_def fanout_reply_def Let_def)

lemma propose_send_step_Inr:
  assumes "propose_send_step strategy x c = Inr c'"
  shows "repliable (fipa_dialogues c) x"
  using assms
  by (auto simp: repliable_def propose_send_step_def get_dialogue_def reply_def info_def
      put_message_def Let_def legal_reply_Some
      split: if_splits option.splits sum.splits prod.splits)

lemma propose_send_loop_ok:
  "propose_send_loop strategy xs c = Inr c' \<Longrightarrow>
     distinct (map (\<lambda>a. msg_reference (message a)) xs)
     \<and> (\<forall>x\<in>set xs. repliable (fipa_dialogues c) x)
     \<and> length (fipa_dialogues c') = length (fipa_dialogues c)
     \<and> (\<forall>i. i \<notin> (\<lambda>a. msg_reference (message a)) ` set xs \<longrightarrow> fipa_dialogues c' ! i = fipa_dialogues c ! i)
     \<and> (\<forall>x\<in>set xs. fipa_dialogues c' ! msg_reference (message x)
            = fanout_dialogue strategy x (fipa_dialogues c ! msg_reference (message x)))"
proof (induction xs arbitrary: c)
  case Nil
  then show ?case by simp
next
  case (Cons x xs)
  let ?r = "msg_reference (message x)"
  from Cons.prems obtain c1 where s: "propose_send_step strategy x c = Inr c1"
    and l: "propose_send_loop strategy xs c1 = Inr c'"
    by (auto split: sum.splits)
  have rx: "repliable (fipa_dialogues c) x" by (rule propose_send_step_Inr[OF s])
  have st: "fipa_dialogues c1 = (fipa_dialogues c)[?r := fanout_dialogue strategy x (fipa_dialogues c ! ?r)]"
    using s propose_send_step_ok[OF rx, of strategy] by auto
  note ih = Cons.IH[OF l]
  have ih_rep: "\<forall>y\<in>set xs. repliable (fipa_dialogues c1) y" using ih by blast
  have len1: "length (fipa_dialogues c1) = length (fipa_dialogues c)" by (simp add: st)
  have fin: "dstate (fipa_dialogues c1 ! ?r) \<noteq> PROPOSE_RECEIVED"
    using rx by (auto simp: st repliable_def fanout_dialogue_def)
  have other: "\<forall>y\<in>set xs. msg_reference (message y) \<noteq> ?r"
    using ih_rep fin by (auto simp: repliable_def)
  have notin: "?r \<notin> (\<lambda>a. msg_reference (message a)) ` set xs"
    using other by auto
  have same: "\<forall>y\<in>set xs. fipa_dialogues c1 ! msg_reference (message y) = fipa_dialogues c ! msg_reference (message y)"
    using other by (auto simp: st nth_list_update)
  have rep: "\<forall>y\<in>set xs. repliable (fipa_dialogues c) y"
    using ih_rep same len1 by (simp add: repliable_def)
  show ?case
  proof (intro conjI)
    show "distinct (map (\<lambda>a. msg_reference (message a)) (x # xs))" using ih notin by simp
    show "\<forall>y\<in>set (x # xs). repliable (fipa_dialogues c) y" using rx rep by simp
    show "length (fipa_dialogues c') = length (fipa_dialogues c)" using ih by (simp add: st)
    show "\<forall>i. i \<notin> (\<lambda>a. msg_reference (message a)) ` set (x # xs) \<longrightarrow> fipa_dialogues c' ! i = fipa_dialogues c ! i"
      using ih by (auto simp: st nth_list_update)
    show "\<forall>y\<in>set (x # xs). fipa_dialogues c' ! msg_reference (message y)
            = fanout_dialogue strategy y (fipa_dialogues c ! msg_reference (message y))"
    proof
      fix y assume "y \<in> set (x # xs)"
      then consider "y = x" | "y \<in> set xs" by auto
      then show "fipa_dialogues c' ! msg_reference (message y)
            = fanout_dialogue strategy y (fipa_dialogues c ! msg_reference (message y))"
      proof cases
        case 1
        have "fipa_dialogues c' ! ?r = fipa_dialogues c1 ! ?r" using ih notin by blast
        also have "\<dots> = fanout_dialogue strategy x (fipa_dialogues c ! ?r)"
          using rx by (simp add: st repliable_def)
        finally show ?thesis using 1 by simp
      next
        case 2
        then show ?thesis using ih same by auto
      qed
    qed
  qed
qed

lemma propose_send_step_frame:
  assumes "propose_send_step strategy x c = Inr c'"
  shows "received_proposals c' = received_proposals c" "sent_proposals c' = sent_proposals c"
    "is_searching c' = is_searching c" "is_stop_searching_on_result c' = is_stop_searching_on_result c"
    "agent_address c' = agent_address c"
    "logger c' = logger c @ [SendingDecision (decision x) (last5 (sender x))]"
    "outbox c' = outbox c @ [fanout_reply (fipa_dialogues c) x (the (decision x))]"
    "dialogue_ops c' = dialogue_ops c @ fanout_ops strategy x"
  using assms propose_send_step_ok[OF propose_send_step_Inr[OF assms], of strategy] by auto

lemma propose_send_loop_frame:
  "propose_send_loop strategy xs c = Inr c' \<Longrightarrow>
     received_proposals c' = received_proposals c \<and> sent_proposals c' = sent_proposals c
     \<and> is_searching c' = is_searching c
     \<and> is_stop_searching_on_result c' = is_stop_searching_on_result c
     \<and> agent_address c' = agent_address c
     \<and> logger c' = logger c @ map (\<lambda>x. SendingDecision (decision x) (last5 (sender x))) xs
     \<and> dialogue_ops c' = dialogue_ops c @ concat (map (fanout_ops strategy) xs)"
proof (induction xs arbitrary: c)
  case Nil
  then show ?case by simp
next
  case (Cons x xs)
  from Cons.prems obtain c1 where s: "propose_send_step strategy x c = Inr c1"
    and l: "propose_send_loop strategy xs c1 = Inr c'"
    by (auto split: sum.splits)
  show ?case using Cons.IH[OF l] propose_send_step_frame[OF s] by simp
qed

lemma propose_send_loop_outbox:
  "propose_send_loop strategy xs c = Inr c' \<Longrightarrow>
     outbox c' = outbox c @ map (\<lambda>x. fanout_reply (fipa_dialogues c) x (the (decision x))) xs"
proof (induction xs arbitrary: c)
  case Nil
  then show ?case by simp
next
  case (Cons x xs)
  let ?r = "msg_reference (message x)"
  from Cons.prems obtain c1 where s: "propose_send_step strategy x c = Inr c1"
    and l: "propose_send_loop strategy xs c1 = Inr c'"
    by (auto split: sum.splits)
  have rx: "repliable (fipa_dialogues c) x" by (rule propose_send_step_Inr[OF s])
  have st: "fipa_dialogues c1 = (fipa_dialogues c)[?r := fanout_dialogue strategy x (fipa_dialogues c ! ?r)]"
    using s propose_send_step_ok[OF rx, of strategy] by auto
  have "distinct (map (\<lambda>a. msg_reference (message a)) (x # xs))"
    using propose_send_loop_ok[OF Cons.prems] by blast
  then have other: "\<forall>y\<in>set xs. msg_reference (message y) \<noteq> ?r"
    by (rule distinct_map_Cons_neq)
  have "map (\<lambda>y. fanout_reply (fipa_dialogues c1) y (the (decision y))) xs
      = map (\<lambda>y. fanout_reply (fipa_dialogues c) y (the (decision y))) xs"
    by (rule map_cong) (use other in \<open>auto simp: fanout_reply_def st nth_list_update\<close>)
  then show ?case using Cons.IH[OF l] propose_send_step_frame[OF s] by simp
qed



lemma propose_send_loop_total:
  "distinct (map (\<lambda>a. msg_reference (message a)) xs) \<Longrightarrow>
   \<forall>x\<in>set xs. repliable (fipa_dialogues c) x \<Longrightarrow>
   \<exists>c'. propose_send_loop strategy xs c = Inr c'"
proof (induction xs arbitrary: c)
  case Nil
  then show ?case by simp
next
  case (Cons x xs)
  let ?r = "msg_reference (message x)"
  have rx: "repliable (fipa_dialogues c) x" using Cons.prems by simp
  obtain c1 where s: "propose_send_step strategy x c = Inr c1"
    using propose_send_step_ok[OF rx, of strategy] by blast
  have st: "fipa_dialogues c1 = (fipa_dialogues c)[?r := fanout_dialogue strategy x (fipa_dialogues c ! ?r)]"
    using s propose_send_step_ok[OF rx, of strategy] by auto
  have other: "\<forall>y\<in>set xs. msg_reference (message y) \<noteq> ?r"
    using Cons.prems(1) by (rule distinct_map_Cons_neq)
  have "\<forall>y\<in>set xs. repliable (fipa_dialogues c1) y"
    using Cons.prems(2) other by (auto simp: repliable_def st nth_list_update)
  then obtain c' where "propose_send_loop strategy xs c1 = Inr c'"
    using Cons.IH[of c1] Cons.prems(1) by auto
  then show ?case using s by simp
qed

lemma buffer_proposal_fields:
  "received_proposals (buffer_proposal strategy m c) =
     received_proposals c @ [\<lparr>sender = msg_sender m, message = m, decision = pending_slot strategy m\<rparr>]"
  "sent_proposals (buffer_proposal strategy m c) = sent_proposals c"
  "logger (buffer_proposal strategy m c) = logger c @ [ReceivedProposal (msg_proposal m) (last5 (msg_sender m))]"
  "outbox (buffer_proposal strategy m c) = outbox c"
  "fipa_dialogues (buffer_proposal strategy m c) = fipa_dialogues c"
  "dialogue_ops (buffer_proposal strategy m c) = dialogue_ops c"
  "is_searching (buffer_proposal strategy m c) = is_searching c"
  by (auto simp: buffer_proposal_def info_def Let_def pending_slot_def)

lemma decisions_made_buffer: "decisions_made (buffer_proposal strategy m c) = decisions_made c"
  by (simp add: decisions_made_def buffer_proposal_fields)


lemma handle_propose_send_reset:
  "handle_propose_send strategy c = Inr c' \<Longrightarrow> received_proposals c' = [] \<and> sent_proposals c' = []"
  by (auto simp: handle_propose_send_def split: sum.splits)

lemma handle_propose_no_barrier:
  "length (received_proposals c) + 1 \<noteq> length (sent_proposals c) \<Longrightarrow>
   handle_propose strategy m c = Inr (buffer_proposal strategy m c)"
  by (simp add: handle_propose_def Let_def buffer_proposal_fields)





lemmas handler_defs =
  handle_propose_def buffer_proposal_def decide_def undecided_refs_def handle_propose_send_def
  propose_send_step_def get_dialogue_def reply_def info_def put_message_def last5_def Let_def

lemmas example_defs =
  price_policy_def proposal_from_def buffered_def awaiting_decision_def fresh_def round_of_def

section \<open>The barrier\<close>




text \<open>
  Claim C10. Once the received buffer is longer than the sent list, a sequence of calls of
  the proposal handler (no search result in between, hence no growth of the sent list)
  never runs the decision pass: every call returns, the number of passes in the log stays
  what it was, the sent list stays what it was, every proposal is appended to the buffer,
  and nothing is sent.
\<close>

theorem overfull_buffer_never_decides:
  "length (sent_proposals c) < length (received_proposals c) \<Longrightarrow>
   \<exists>c'. run_proposals strategy ms c = Inr c'
      \<and> decisions_made c' = decisions_made c
      \<and> sent_proposals c' = sent_proposals c
      \<and> received_proposals c' = received_proposals c @
           map (\<lambda>m. \<lparr>sender = msg_sender m, message = m, decision = pending_slot strategy m\<rparr>) ms
      \<and> outbox c' = outbox c"
proof (induction ms arbitrary: c)
  case Nil
  then show ?case by simp
next
  case (Cons m ms)
  let ?c1 = "buffer_proposal strategy m c"
  have h: "handle_propose strategy m c = Inr ?c1"
    using Cons.prems by (intro handle_propose_no_barrier) simp
  have "length (sent_proposals ?c1) < length (received_proposals ?c1)"
    using Cons.prems by (simp add: buffer_proposal_fields)
  from Cons.IH[OF this] obtain c' where
    "run_proposals strategy ms ?c1 = Inr c'"
    "decisions_made c' = decisions_made ?c1"
    "sent_proposals c' = sent_proposals ?c1"
    "received_proposals c' = received_proposals ?c1 @
           map (\<lambda>m. \<lparr>sender = msg_sender m, message = m, decision = pending_slot strategy m\<rparr>) ms"
    "outbox c' = outbox ?c1"
    by blast
  then show ?case using h
    by (simp add: buffer_proposal_fields decisions_made_buffer)
qed

theorem overfull_buffer_never_decides_witness:
  "length (sent_proposals (round_of [] [buffered ''A'' 0 9 None]))
     < length (received_proposals (round_of [] [buffered ''A'' 0 9 None]))
   \<and> (\<exists>c'. run_proposals (price_policy 20) [proposal_from ''B'' 1 5, proposal_from ''C'' 2 7]
              (round_of [] [buffered ''A'' 0 9 None]) = Inr c'
        \<and> decisions_made c' = 0 \<and> sent_proposals c' = []
        \<and> length (received_proposals c') = 3 \<and> outbox c' = [])"
proof -
  let ?C = "round_of [] [buffered ''A'' 0 9 None]"
  have lt: "length (sent_proposals ?C) < length (received_proposals ?C)"
    by (simp add: round_of_def fresh_def)
  have init: "decisions_made ?C = 0" "sent_proposals ?C = []" "outbox ?C = []"
    "length (received_proposals ?C) = 1"
    by (simp_all add: decisions_made_def round_of_def fresh_def)
  from overfull_buffer_never_decides[OF lt, of "price_policy 20"
      "[proposal_from ''B'' 1 5, proposal_from ''C'' 2 7]"]
  obtain c' where
    "run_proposals (price_policy 20) [proposal_from ''B'' 1 5, proposal_from ''C'' 2 7] ?C = Inr c'"
    "decisions_made c' = decisions_made ?C" "sent_proposals c' = sent_proposals ?C"
    "received_proposals c' = received_proposals ?C @
       map (\<lambda>m. \<lparr>sender = msg_sender m, message = m, decision = pending_slot (price_policy 20) m\<rparr>)
         [proposal_from ''B'' 1 5, proposal_from ''C'' 2 7]"
    "outbox c' = outbox ?C"
    by blast
  then show ?thesis using lt init by auto
qed

section \<open>Buffering a proposal\<close>

text \<open>
  Claim C4. A proposal that fails the acceptability check or the affordability check is
  buffered with its decision slot set to decline; a proposal that passes both is buffered
  with the slot unset. This is the state of the buffer right after the append, whatever
  the lengths of the two lists are: when the barrier does not fire the handler returns that
  state, and when it fires the decision pass leaves the pre-set decline as it is.
\<close>

theorem pre_decline_on_arrival:
  "butlast (received_proposals (buffer_proposal strategy m c)) = received_proposals c
   \<and> (\<not> is_acceptable_proposal strategy (msg_proposal m)
        \<or> \<not> is_affordable_proposal strategy (msg_proposal m) \<longrightarrow>
        last (received_proposals (buffer_proposal strategy m c))
          = \<lparr>sender = msg_sender m, message = m, decision = Some DECLINE\<rparr>
        \<and> last (decide strategy (received_proposals (buffer_proposal strategy m c)))
          = \<lparr>sender = msg_sender m, message = m, decision = Some DECLINE\<rparr>)
   \<and> (is_acceptable_proposal strategy (msg_proposal m)
        \<and> is_affordable_proposal strategy (msg_proposal m) \<longrightarrow>
        last (received_proposals (buffer_proposal strategy m c))
          = \<lparr>sender = msg_sender m, message = m, decision = None\<rparr>)
   \<and> (length (received_proposals c) + 1 \<noteq> length (sent_proposals c) \<longrightarrow>
        handle_propose strategy m c = Inr (buffer_proposal strategy m c))"
proof (intro conjI impI)
  let ?rs = "received_proposals (buffer_proposal strategy m c)"
  show "butlast ?rs = received_proposals c"
    by (simp add: buffer_proposal_fields)
  show "last ?rs = \<lparr>sender = msg_sender m, message = m, decision = None\<rparr>"
    if "is_acceptable_proposal strategy (msg_proposal m)
        \<and> is_affordable_proposal strategy (msg_proposal m)"
    using that by (simp add: buffer_proposal_fields pending_slot_def)
  show "handle_propose strategy m c = Inr (buffer_proposal strategy m c)"
    if "length (received_proposals c) + 1 \<noteq> length (sent_proposals c)"
    using that by (rule handle_propose_no_barrier)
  assume no: "\<not> is_acceptable_proposal strategy (msg_proposal m)
        \<or> \<not> is_affordable_proposal strategy (msg_proposal m)"
  then show l: "last ?rs = \<lparr>sender = msg_sender m, message = m, decision = Some DECLINE\<rparr>"
    by (auto simp: buffer_proposal_fields pending_slot_def)
  have ne: "?rs \<noteq> []" by (simp add: buffer_proposal_fields)
  have "last (decide strategy ?rs)
      = mark (get_cheapest_proposal strategy (filter (\<lambda>x. decision x = None) ?rs)) (last ?rs)"
    unfolding decide_map using ne by (simp add: last_map)
  then show "last (decide strategy ?rs) = \<lparr>sender = msg_sender m, message = m, decision = Some DECLINE\<rparr>"
    by (simp add: l mark_def)
qed

theorem pre_decline_on_arrival_witness:
  "\<not> is_affordable_proposal (price_policy 12) (msg_proposal (proposal_from ''X'' 0 15))
   \<and> is_acceptable_proposal (price_policy 12) (msg_proposal (proposal_from ''Y'' 1 9))
   \<and> is_affordable_proposal (price_policy 12) (msg_proposal (proposal_from ''Y'' 1 9))
   \<and> length (received_proposals (round_of [''X'', ''Y'', ''Z''] [])) + 1
       \<noteq> length (sent_proposals (round_of [''X'', ''Y'', ''Z''] []))
   \<and> last (received_proposals
        (buffer_proposal (price_policy 12) (proposal_from ''X'' 0 15) (round_of [''X'', ''Y'', ''Z''] [])))
       = buffered ''X'' 0 15 (Some DECLINE)
   \<and> last (received_proposals
        (buffer_proposal (price_policy 12) (proposal_from ''Y'' 1 9) (round_of [''X'', ''Y'', ''Z''] [])))
       = buffered ''Y'' 1 9 None
   \<and> handle_propose (price_policy 12) (proposal_from ''X'' 0 15) (round_of [''X'', ''Y'', ''Z''] [])
       = Inr (buffer_proposal (price_policy 12) (proposal_from ''X'' 0 15) (round_of [''X'', ''Y'', ''Z''] []))"
proof -
  let ?P = "price_policy 12"
  let ?C = "round_of [''X'', ''Y'', ''Z''] []"
  have x: "\<not> is_affordable_proposal ?P (msg_proposal (proposal_from ''X'' 0 15))"
    by (simp add: price_policy_def proposal_from_def)
  have y: "is_acceptable_proposal ?P (msg_proposal (proposal_from ''Y'' 1 9))"
    "is_affordable_proposal ?P (msg_proposal (proposal_from ''Y'' 1 9))"
    by (simp_all add: price_policy_def proposal_from_def)
  have n: "length (received_proposals ?C) + 1 \<noteq> length (sent_proposals ?C)"
    by (simp add: round_of_def fresh_def)
  have s: "msg_sender (proposal_from a r k) = a" for a r k
    by (simp add: proposal_from_def)
  show ?thesis
    using pre_decline_on_arrival[of ?P "proposal_from ''X'' 0 15" ?C]
      pre_decline_on_arrival[of ?P "proposal_from ''Y'' 1 9" ?C] x y n
    by (simp add: buffered_def s)
qed

section \<open>The decision pass\<close>

text \<open>
  What the pass guarantees. Every entry of the buffer is pending or pre-declined when the
  pass starts, so afterwards every entry is accepted or declined.
\<close>

lemma decide_conservation:
  assumes "\<forall>x\<in>set rs. decision x = None \<or> decision x = Some DECLINE"
  shows "accepts (decide strategy rs) + declines (decide strategy rs) = length rs"
proof -
  have "length (filter (\<lambda>x. decision x = Some ACCEPT) (map (mark ch) xs))
        + length (filter (\<lambda>x. decision x = Some DECLINE) (map (mark ch) xs)) = length xs"
    if "\<forall>x\<in>set xs. decision x = None \<or> decision x = Some DECLINE"
    for ch :: "'a carpark" and xs
    using that by (induction xs) (auto simp: mark_def)
  then show ?thesis using assms by (simp add: decide_map accepts_def declines_def)
qed

text \<open>
  When the pending proposals come from different senders and the policy picks one of them,
  the pass accepts the one picked and declines every other pending proposal.
\<close>

lemma decide_single_winner:
  fixes strategy :: "('p, 'q, 't) policy"
  defines "pending rs \<equiv> filter (\<lambda>x. decision x = None) rs"
  assumes pick: "get_cheapest_proposal strategy (pending rs) \<in> set (pending rs)"
    and senders: "distinct (map sender (pending rs))"
    and slots: "\<forall>x\<in>set rs. decision x = None \<or> decision x = Some DECLINE"
  shows "decide strategy rs =
           map (\<lambda>x. if decision x = None
                     then x\<lparr>decision := Some (if x = get_cheapest_proposal strategy (pending rs)
                                                then ACCEPT else DECLINE)\<rparr>
                     else x) rs"
    and "accepts (decide strategy rs) = 1"
proof -
  let ?ch = "get_cheapest_proposal strategy (pending rs)"
  have inj: "inj_on sender (set (pending rs))"
    using senders by (simp add: distinct_map)
  have same: "sender ?ch = sender x \<longleftrightarrow> x = ?ch" if "x \<in> set rs" "decision x = None" for x
  proof -
    have "x \<in> set (pending rs)" using that by (simp add: pending_def)
    then show ?thesis using inj pick by (auto dest: inj_onD)
  qed
  show eq: "decide strategy rs =
           map (\<lambda>x. if decision x = None
                     then x\<lparr>decision := Some (if x = ?ch then ACCEPT else DECLINE)\<rparr>
                     else x) rs"
    unfolding decide_map pending_def[symmetric]
    by (rule map_cong[OF refl]) (auto simp: mark_def same)
  have "filter (\<lambda>x. decision x = Some ACCEPT)
          (map (\<lambda>x. if decision x = None
                     then x\<lparr>decision := Some (if x = ?ch then ACCEPT else DECLINE)\<rparr>
                     else x) xs)
        = map (\<lambda>x. x\<lparr>decision := Some ACCEPT\<rparr>) (filter (\<lambda>x. x = ?ch) (pending xs))"
    if "\<forall>x\<in>set xs. decision x = None \<or> decision x = Some DECLINE" for xs
    using that by (induction xs) (auto simp: pending_def)
  then have "accepts (decide strategy rs) = length (filter (\<lambda>x. x = ?ch) (pending rs))"
    using slots by (simp add: eq accepts_def)
  also have "\<dots> = 1"
    using pick senders by (intro distinct_occurs_once) (simp_all add: distinct_map)
  finally show "accepts (decide strategy rs) = 1" .
qed

text \<open>The example of the spec: costs A 15, B 9, C 11, all affordable. B is accepted.\<close>

lemma decide_three_senders:
  "decide (price_policy 20) [buffered ''A'' 0 15 None, buffered ''B'' 1 9 None, buffered ''C'' 2 11 None]
     = [buffered ''A'' 0 15 (Some DECLINE), buffered ''B'' 1 9 (Some ACCEPT),
        buffered ''C'' 2 11 (Some DECLINE)]"
  by (simp add: decide_def undecided_refs_def price_policy_def buffered_def proposal_from_def)

text \<open>
  Claim C2. The claim: after a decision pass accepts plus declines are the received
  proposals, and at most one proposal is accepted. The pass identifies the winner by its
  sender (line 80), so two pending proposals of one sender are both accepted when one of
  them is the cheapest. Here two calls for proposals went to X, X answered both, with
  costs 9 and 15: the pass accepts two proposals and declines none.
\<close>

theorem two_accepts_for_one_sender:
  "accepts (decide (price_policy 20) [buffered ''X'' 0 9 None, buffered ''X'' 1 15 None]) = 2
   \<and> declines (decide (price_policy 20) [buffered ''X'' 0 9 None, buffered ''X'' 1 15 None]) = 0"
  by (simp add: decide_def undecided_refs_def price_policy_def buffered_def proposal_from_def
      accepts_def declines_def)

text \<open>
  Claim C3. The claim: the pass accepts exactly the pending proposal the policy's cheapest
  function selects and declines every other pending proposal. In the round above the policy
  selects the proposal of cost 9, and the pass marks the proposal of cost 15, which is
  pending and is not the one selected, accept as well.
\<close>

theorem dearer_proposal_of_same_sender_accepted:
  "get_cheapest_proposal (price_policy 20) [buffered ''X'' 0 9 None, buffered ''X'' 1 15 None]
     = buffered ''X'' 0 9 None
   \<and> decide (price_policy 20) [buffered ''X'' 0 9 None, buffered ''X'' 1 15 None]
     = [buffered ''X'' 0 9 (Some ACCEPT), buffered ''X'' 1 15 (Some ACCEPT)]"
  by (simp add: decide_def undecided_refs_def price_policy_def buffered_def proposal_from_def)

text \<open>
  The round with two proposals of one sender arises from the handlers alone: two search
  results naming X, then the two proposals of X. Both are answered with an accept.
\<close>

lemma one_sender_round:
  "map out_performative
     (outbox (state_of
        (and_then (and_then (and_then
           (handle_search (price_policy 20) [''X''] (fresh\<lparr>is_stop_searching_on_result := False\<rparr>))
           (handle_search (price_policy 20) [''X'']))
           (on_proposal_received (price_policy 20) (proposal_from ''X'' 0 9)))
           (on_proposal_received (price_policy 20) (proposal_from ''X'' 1 15)))))
     = [CFP, CFP, ACCEPT, ACCEPT]"
  by (simp add: and_then_def handle_search_def create_def on_proposal_received_def state_of_def
      handler_defs example_defs)

section \<open>The reply fan-out\<close>

text \<open>
  Claim C7. When the fan-out of \<^verbatim>\<open>_handle_propose_send\<close> completes, the outbox has grown by
  exactly one reply per buffered proposal, in the order of arrival, each answering its
  proposal with the proposal's decision. The dialogue operations of the fan-out are, proposal
  by proposal, the write of the terms (computed by the policy from the proposal and its
  sender) followed by the reply for an accepted proposal, and the reply alone for a declined
  one. In the end the dialogue of an accepted proposal carries these terms and the dialogue
  of a declined proposal carries the terms it had.
\<close>

theorem fanout_one_reply_per_proposal:
  assumes "handle_propose_send strategy c = Inr c'"
  shows "(\<exists>replies. outbox c' = outbox c @ replies
            \<and> length replies = length (received_proposals c)
            \<and> map out_reference replies
                = map (\<lambda>x. msg_reference (message x)) (received_proposals c)
            \<and> map (\<lambda>r. Some (out_performative r)) replies
                = map decision (received_proposals c)
            \<and> map out_to replies
                = map (\<lambda>x. counterparty (fipa_dialogues c ! msg_reference (message x)))
                    (received_proposals c))
     \<and> dialogue_ops c' = dialogue_ops c @ concat (map (fanout_ops strategy) (received_proposals c))
     \<and> (\<forall>x\<in>set (received_proposals c).
           decision x = Some ACCEPT \<or> decision x = Some DECLINE)
     \<and> (\<forall>x\<in>set (received_proposals c). decision x = Some ACCEPT \<longrightarrow>
           fanout_ops strategy x =
             [TermsSet (msg_reference (message x))
                (terms_from_proposal strategy (msg_proposal (message x)) (sender x)),
              Replied (msg_reference (message x)) ACCEPT]
           \<and> terms (fipa_dialogues c' ! msg_reference (message x))
               = Some (terms_from_proposal strategy (msg_proposal (message x)) (sender x))
           \<and> dstate (fipa_dialogues c' ! msg_reference (message x)) = ACCEPTED)
     \<and> (\<forall>x\<in>set (received_proposals c). decision x = Some DECLINE \<longrightarrow>
           fanout_ops strategy x = [Replied (msg_reference (message x)) DECLINE]
           \<and> terms (fipa_dialogues c' ! msg_reference (message x))
               = terms (fipa_dialogues c ! msg_reference (message x))
           \<and> dstate (fipa_dialogues c' ! msg_reference (message x)) = DECLINED)"
proof -
  let ?rs = "received_proposals c"
  from assms obtain c1 where l: "propose_send_loop strategy ?rs c = Inr c1"
    and c': "c' = c1\<lparr>received_proposals := [], sent_proposals := []\<rparr>"
    by (auto simp: handle_propose_send_def split: sum.splits)
  note ok = propose_send_loop_ok[OF l]
  have rep: "\<forall>x\<in>set ?rs. repliable (fipa_dialogues c) x" using ok by blast
  have fin: "\<forall>x\<in>set ?rs. fipa_dialogues c1 ! msg_reference (message x)
            = fanout_dialogue strategy x (fipa_dialogues c ! msg_reference (message x))"
    using ok by blast
  have dec: "\<forall>x\<in>set ?rs. decision x = Some ACCEPT \<or> decision x = Some DECLINE"
    using rep by (simp add: repliable_def)
  let ?replies = "map (\<lambda>x. fanout_reply (fipa_dialogues c) x (the (decision x))) ?rs"
  have ob: "outbox c' = outbox c @ ?replies"
    using propose_send_loop_outbox[OF l] by (simp add: c')
  have "map (\<lambda>x. Some (out_performative (fanout_reply (fipa_dialogues c) x (the (decision x))))) ?rs
      = map decision ?rs"
  proof (rule map_cong[OF refl])
    fix x assume "x \<in> set ?rs"
    with dec have "decision x = Some ACCEPT \<or> decision x = Some DECLINE" by blast
    then show "Some (out_performative (fanout_reply (fipa_dialogues c) x (the (decision x)))) = decision x"
      by (auto simp: fanout_reply_def)
  qed
  then have perf: "map (\<lambda>r. Some (out_performative r)) ?replies = map decision ?rs"
    by (simp add: comp_def)
  have len: "length ?replies = length ?rs" by simp
  have refs: "map out_reference ?replies = map (\<lambda>x. msg_reference (message x)) ?rs"
    by (simp add: fanout_reply_def comp_def)
  have tos: "map out_to ?replies
      = map (\<lambda>x. counterparty (fipa_dialogues c ! msg_reference (message x))) ?rs"
    by (simp add: fanout_reply_def comp_def)
  have "\<exists>replies. outbox c' = outbox c @ replies
            \<and> length replies = length ?rs
            \<and> map out_reference replies = map (\<lambda>x. msg_reference (message x)) ?rs
            \<and> map (\<lambda>r. Some (out_performative r)) replies = map decision ?rs
            \<and> map out_to replies
                = map (\<lambda>x. counterparty (fipa_dialogues c ! msg_reference (message x))) ?rs"
    using ob len refs perf tos by (intro exI[of _ ?replies] conjI)
  moreover have "dialogue_ops c' = dialogue_ops c @ concat (map (fanout_ops strategy) ?rs)"
    using propose_send_loop_frame[OF l] by (simp add: c')
  moreover have "\<forall>x\<in>set ?rs. decision x = Some ACCEPT \<longrightarrow>
           fanout_ops strategy x =
             [TermsSet (msg_reference (message x))
                (terms_from_proposal strategy (msg_proposal (message x)) (sender x)),
              Replied (msg_reference (message x)) ACCEPT]
           \<and> terms (fipa_dialogues c' ! msg_reference (message x))
               = Some (terms_from_proposal strategy (msg_proposal (message x)) (sender x))
           \<and> dstate (fipa_dialogues c' ! msg_reference (message x)) = ACCEPTED"
    using fin by (simp add: c' fanout_ops_def fanout_dialogue_def)
  moreover have "\<forall>x\<in>set ?rs. decision x = Some DECLINE \<longrightarrow>
           fanout_ops strategy x = [Replied (msg_reference (message x)) DECLINE]
           \<and> terms (fipa_dialogues c' ! msg_reference (message x))
               = terms (fipa_dialogues c ! msg_reference (message x))
           \<and> dstate (fipa_dialogues c' ! msg_reference (message x)) = DECLINED"
    using fin by (simp add: c' fanout_ops_def fanout_dialogue_def)
  ultimately show ?thesis using dec by blast
qed

theorem fanout_one_reply_per_proposal_witness:
  "\<exists>c'. handle_propose_send (price_policy 12)
            (round_of [''X'', ''Y'', ''Z'']
               [buffered ''Y'' 1 9 (Some ACCEPT), buffered ''X'' 0 15 (Some DECLINE),
                buffered ''Z'' 2 11 (Some DECLINE)]) = Inr c'
     \<and> map out_reference (outbox c') = [1, 0, 2]
     \<and> map (\<lambda>r. Some (out_performative r)) (outbox c') = [Some ACCEPT, Some DECLINE, Some DECLINE]
     \<and> map out_to (outbox c') = [''Y'', ''X'', ''Z'']
     \<and> dialogue_ops c' = [TermsSet 1 (9, ''Y''), Replied 1 ACCEPT, Replied 0 DECLINE, Replied 2 DECLINE]
     \<and> terms (fipa_dialogues c' ! 1) = Some (9, ''Y'')
     \<and> terms (fipa_dialogues c' ! 0) = None
     \<and> terms (fipa_dialogues c' ! 2) = None"
proof -
  let ?P = "price_policy 12"
  let ?y = "buffered ''Y'' 1 9 (Some ACCEPT)"
  let ?x = "buffered ''X'' 0 15 (Some DECLINE)"
  let ?z = "buffered ''Z'' 2 11 (Some DECLINE)"
  let ?rs = "[?y, ?x, ?z]"
  let ?C = "round_of [''X'', ''Y'', ''Z''] ?rs"
  have "\<exists>c'. handle_propose_send ?P ?C = Inr c'"
    by (simp add: handler_defs example_defs)
  then obtain c' where run: "handle_propose_send ?P ?C = Inr c'" ..
  have init: "outbox ?C = []" "dialogue_ops ?C = []" "received_proposals ?C = ?rs"
    "fipa_dialogues ?C = map awaiting_decision [''X'', ''Y'', ''Z'']"
    by (simp_all add: round_of_def fresh_def)
  have decs: "decision ?y = Some ACCEPT" "decision ?x = Some DECLINE" "decision ?z = Some DECLINE"
    by (simp_all add: buffered_def)
  note inst = fanout_one_reply_per_proposal[OF run, unfolded init]
  from inst[THEN conjunct1] obtain replies where
    ob: "outbox c' = [] @ replies"
    and r1: "map out_reference replies = map (\<lambda>x. msg_reference (message x)) ?rs"
    and r2: "map (\<lambda>r. Some (out_performative r)) replies = map decision ?rs"
    and r3: "map out_to replies
              = map (\<lambda>x. counterparty (map awaiting_decision [''X'', ''Y'', ''Z''] ! msg_reference (message x))) ?rs"
    by blast
  have a1: "map out_reference (outbox c') = [1, 0, 2]"
    using r1 by (simp add: ob buffered_def proposal_from_def)
  have a2: "map (\<lambda>r. Some (out_performative r)) (outbox c') = [Some ACCEPT, Some DECLINE, Some DECLINE]"
    using r2 by (simp add: ob buffered_def)
  have a3: "map out_to (outbox c') = [''Y'', ''X'', ''Z'']"
    using r3 by (simp add: ob buffered_def proposal_from_def awaiting_decision_def)
  have "dialogue_ops c' = [] @ concat (map (fanout_ops ?P) ?rs)"
    using inst[THEN conjunct2, THEN conjunct1] .
  then have a4: "dialogue_ops c' = [TermsSet 1 (9, ''Y''), Replied 1 ACCEPT, Replied 0 DECLINE, Replied 2 DECLINE]"
    by (simp add: fanout_ops_def buffered_def proposal_from_def price_policy_def)
  note acc = inst[THEN conjunct2, THEN conjunct2, THEN conjunct2, THEN conjunct1, rule_format]
  note dcl = inst[THEN conjunct2, THEN conjunct2, THEN conjunct2, THEN conjunct2, rule_format]
  have "terms (fipa_dialogues c' ! msg_reference (message ?y))
      = Some (terms_from_proposal ?P (msg_proposal (message ?y)) (sender ?y))"
    using acc[of ?y] decs by simp
  then have a5: "terms (fipa_dialogues c' ! 1) = Some (9, ''Y'')"
    by (simp add: buffered_def proposal_from_def price_policy_def)
  have "terms (fipa_dialogues c' ! msg_reference (message ?x))
      = terms (map awaiting_decision [''X'', ''Y'', ''Z''] ! msg_reference (message ?x))"
    using dcl[of ?x] decs by simp
  then have a6: "terms (fipa_dialogues c' ! 0) = None"
    by (simp add: buffered_def proposal_from_def awaiting_decision_def)
  have "terms (fipa_dialogues c' ! msg_reference (message ?z))
      = terms (map awaiting_decision [''X'', ''Y'', ''Z''] ! msg_reference (message ?z))"
    using dcl[of ?z] decs by simp
  then have a7: "terms (fipa_dialogues c' ! 2) = None"
    by (simp add: buffered_def proposal_from_def awaiting_decision_def)
  show ?thesis
    using run a1 a2 a3 a4 a5 a6 a7 by (intro exI[of _ c'] conjI)
qed

section \<open>The reset\<close>

text \<open>
  Claim C5. When the decision pass completes, that is when \<^verbatim>\<open>_handle_propose_send\<close> returns,
  the received buffer and the sent list are both empty; so is the state the proposal
  handler returns after a pass. Nothing of the round is left for the next one.
\<close>

theorem lists_empty_after_decision_pass:
  "(handle_propose_send strategy c = Inr c' \<longrightarrow>
      received_proposals c' = [] \<and> sent_proposals c' = [])
   \<and> (handle_propose strategy m c = Inr c' \<longrightarrow>
      length (received_proposals c) + 1 = length (sent_proposals c) \<longrightarrow>
      received_proposals c' = [] \<and> sent_proposals c' = [])"
proof (intro conjI impI)
  assume "handle_propose_send strategy c = Inr c'"
  then show "received_proposals c' = []" "sent_proposals c' = []"
    using handle_propose_send_reset by blast+
next
  let ?c1 = "buffer_proposal strategy m c"
  assume "handle_propose strategy m c = Inr c'"
    and "length (received_proposals c) + 1 = length (sent_proposals c)"
  then have "handle_propose_send strategy
      ((info MakingDecision ?c1)\<lparr>received_proposals := decide strategy (received_proposals ?c1)\<rparr>) = Inr c'"
    by (simp add: handle_propose_def Let_def buffer_proposal_fields)
  then show "received_proposals c' = []" "sent_proposals c' = []"
    using handle_propose_send_reset by blast+
qed

theorem lists_empty_after_decision_pass_witness:
  "\<exists>c' c''.
     handle_propose_send (price_policy 20)
        (round_of [''A'', ''B''] [buffered ''A'' 0 15 (Some DECLINE), buffered ''B'' 1 9 (Some ACCEPT)])
       = Inr c'
     \<and> received_proposals c' = [] \<and> sent_proposals c' = []
     \<and> handle_propose (price_policy 20) (proposal_from ''B'' 1 9)
          (round_of [''A'', ''B''] [buffered ''A'' 0 15 None]) = Inr c''
     \<and> length (received_proposals (round_of [''A'', ''B''] [buffered ''A'' 0 15 None])) + 1
          = length (sent_proposals (round_of [''A'', ''B''] [buffered ''A'' 0 15 None]))
     \<and> received_proposals c'' = [] \<and> sent_proposals c'' = []"
proof -
  let ?P = "price_policy 20"
  let ?C = "round_of [''A'', ''B''] [buffered ''A'' 0 15 (Some DECLINE), buffered ''B'' 1 9 (Some ACCEPT)]"
  let ?M = "proposal_from ''B'' 1 9"
  let ?D = "round_of [''A'', ''B''] [buffered ''A'' 0 15 None]"
  have "\<exists>c'. handle_propose_send ?P ?C = Inr c'"
    by (simp add: handler_defs example_defs)
  then obtain c' where r: "handle_propose_send ?P ?C = Inr c'" ..
  have "\<exists>c''. handle_propose ?P ?M ?D = Inr c''"
    by (simp add: handler_defs example_defs)
  then obtain c'' where h: "handle_propose ?P ?M ?D = Inr c''" ..
  have eq: "length (received_proposals ?D) + 1 = length (sent_proposals ?D)"
    by (simp add: example_defs)
  have e1: "received_proposals c' = [] \<and> sent_proposals c' = []"
    using lists_empty_after_decision_pass[of ?P ?C c', THEN conjunct1, rule_format, OF r] .
  have e2: "received_proposals c'' = [] \<and> sent_proposals c'' = []"
    using lists_empty_after_decision_pass[of ?P ?D c'' ?M, THEN conjunct2, rule_format, OF h eq] .
  show ?thesis
    using r h eq e1 e2 by (intro exI[of _ c'] exI[of _ c''] conjI) simp_all
qed

section \<open>Admission of proposals\<close>

text \<open>
  The proposal handler itself never looks at the dialogues when it buffers: the entry it
  appends and the lists it compares are the same whatever the dialogue store holds.
\<close>

lemma buffering_ignores_dialogues:
  "buffer_proposal strategy m (c\<lparr>fipa_dialogues := ds\<rparr>)
     = (buffer_proposal strategy m c)\<lparr>fipa_dialogues := ds\<rparr>"
  by (simp add: buffer_proposal_def info_def Let_def)

text \<open>
  Claim C6. A proposal is buffered only if its dialogue exists and is in state \<open>CFP_SENT\<close>:
  then the dialogue advances and the proposal handler runs. A proposal for an existing
  dialogue in any other state fails with \<open>ProtocolViolation\<close>, and a proposal without a
  dialogue fails as well; in both cases the state is what it was, so nothing is buffered.
\<close>

theorem proposal_buffered_only_when_awaited:
  "(msg_reference m < length (fipa_dialogues c)
      \<and> dstate (fipa_dialogues c ! msg_reference m) = CFP_SENT \<longrightarrow>
      on_proposal_received strategy m c =
        handle_propose strategy m
          (c\<lparr>fipa_dialogues := (fipa_dialogues c)[msg_reference m :=
                (fipa_dialogues c ! msg_reference m)\<lparr>dstate := PROPOSE_RECEIVED\<rparr>]\<rparr>))
   \<and> (msg_reference m < length (fipa_dialogues c)
      \<and> dstate (fipa_dialogues c ! msg_reference m) \<noteq> CFP_SENT \<longrightarrow>
      on_proposal_received strategy m c = Inl (ProtocolViolation, c))
   \<and> (\<not> msg_reference m < length (fipa_dialogues c) \<longrightarrow>
      on_proposal_received strategy m c = Inl (UnknownDialogue, c))
   \<and> (\<not> (msg_reference m < length (fipa_dialogues c)
          \<and> dstate (fipa_dialogues c ! msg_reference m) = CFP_SENT) \<longrightarrow>
      received_proposals (state_of (on_proposal_received strategy m c)) = received_proposals c
      \<and> logger (state_of (on_proposal_received strategy m c)) = logger c)"
  by (auto simp: on_proposal_received_def get_dialogue_def state_of_def)

theorem proposal_buffered_only_when_awaited_witness:
  "on_proposal_received (price_policy 12) (proposal_from ''X'' 0 9)
      (fresh\<lparr>sent_proposals := [''X'', ''Y''],
             fipa_dialogues := [\<lparr>counterparty = ''X'', dstate = CFP_SENT, terms = None\<rparr>,
                                \<lparr>counterparty = ''Y'', dstate = CFP_SENT, terms = None\<rparr>]\<rparr>)
     = Inr (fresh\<lparr>sent_proposals := [''X'', ''Y''],
             received_proposals := [buffered ''X'' 0 9 None],
             fipa_dialogues := [\<lparr>counterparty = ''X'', dstate = PROPOSE_RECEIVED, terms = None\<rparr>,
                                \<lparr>counterparty = ''Y'', dstate = CFP_SENT, terms = None\<rparr>],
             logger := [ReceivedProposal 9 ''X'']\<rparr>)
   \<and> on_proposal_received (price_policy 12) (proposal_from ''X'' 0 9)
        (round_of [''X'', ''Y''] [buffered ''X'' 0 9 None])
     = Inl (ProtocolViolation, round_of [''X'', ''Y''] [buffered ''X'' 0 9 None])
   \<and> on_proposal_received (price_policy 12) (proposal_from ''Q'' 7 9)
        (round_of [''X'', ''Y''] [buffered ''X'' 0 9 None])
     = Inl (UnknownDialogue, round_of [''X'', ''Y''] [buffered ''X'' 0 9 None])"
proof -
  let ?P = "price_policy 12"
  let ?m = "proposal_from ''X'' 0 9"
  let ?q = "proposal_from ''Q'' 7 9"
  let ?A = "fresh\<lparr>sent_proposals := [''X'', ''Y''],
             fipa_dialogues := [\<lparr>counterparty = ''X'', dstate = CFP_SENT, terms = None\<rparr>,
                                \<lparr>counterparty = ''Y'', dstate = CFP_SENT, terms = None\<rparr>]\<rparr>"
  let ?B = "round_of [''X'', ''Y''] [buffered ''X'' 0 9 None]"
  have a: "msg_reference ?m < length (fipa_dialogues ?A)
      \<and> dstate (fipa_dialogues ?A ! msg_reference ?m) = CFP_SENT"
    by (simp add: example_defs)
  have b: "msg_reference ?m < length (fipa_dialogues ?B)
      \<and> dstate (fipa_dialogues ?B ! msg_reference ?m) \<noteq> CFP_SENT"
    by (simp add: example_defs)
  have q: "\<not> msg_reference ?q < length (fipa_dialogues ?B)"
    by (simp add: example_defs)
  note inst = proposal_buffered_only_when_awaited
  have "on_proposal_received ?P ?m ?A =
        handle_propose ?P ?m
          (?A\<lparr>fipa_dialogues := (fipa_dialogues ?A)[msg_reference ?m :=
                (fipa_dialogues ?A ! msg_reference ?m)\<lparr>dstate := PROPOSE_RECEIVED\<rparr>]\<rparr>)"
    using inst[of ?m ?A ?P, THEN conjunct1, rule_format, OF a] .
  also have "\<dots> = Inr (fresh\<lparr>sent_proposals := [''X'', ''Y''],
             received_proposals := [buffered ''X'' 0 9 None],
             fipa_dialogues := [\<lparr>counterparty = ''X'', dstate = PROPOSE_RECEIVED, terms = None\<rparr>,
                                \<lparr>counterparty = ''Y'', dstate = CFP_SENT, terms = None\<rparr>],
             logger := [ReceivedProposal 9 ''X'']\<rparr>)"
    by (simp add: handler_defs example_defs)
  finally have 1: "on_proposal_received ?P ?m ?A = Inr (fresh\<lparr>sent_proposals := [''X'', ''Y''],
             received_proposals := [buffered ''X'' 0 9 None],
             fipa_dialogues := [\<lparr>counterparty = ''X'', dstate = PROPOSE_RECEIVED, terms = None\<rparr>,
                                \<lparr>counterparty = ''Y'', dstate = CFP_SENT, terms = None\<rparr>],
             logger := [ReceivedProposal 9 ''X'']\<rparr>)" .
  have 2: "on_proposal_received ?P ?m ?B = Inl (ProtocolViolation, ?B)"
    using inst[of ?m ?B ?P, THEN conjunct2, THEN conjunct1, rule_format, OF b] .
  have 3: "on_proposal_received ?P ?q ?B = Inl (UnknownDialogue, ?B)"
    using inst[of ?q ?B ?P, THEN conjunct2, THEN conjunct2, THEN conjunct1, rule_format, OF q] .
  show ?thesis using 1 2 3 by (intro conjI)
qed

section \<open>An empty search result\<close>

text \<open>
  Claim C8. For a search result without agents the search handler returns at once: the
  searching flag, the sent list, the received buffer, the dialogues and the outbox are
  what they were, and the only effect is the line in the log.
\<close>

theorem empty_search_result_changes_nothing:
  "handle_search strategy [] c = Inr (c\<lparr>logger := logger c @ [NoAgentsFound]\<rparr>)
   \<and> is_searching (state_of (handle_search strategy [] c)) = is_searching c
   \<and> sent_proposals (state_of (handle_search strategy [] c)) = sent_proposals c
   \<and> received_proposals (state_of (handle_search strategy [] c)) = received_proposals c
   \<and> outbox (state_of (handle_search strategy [] c)) = outbox c
   \<and> fipa_dialogues (state_of (handle_search strategy [] c)) = fipa_dialogues c"
  by (simp add: handle_search_def info_def state_of_def)

section \<open>The scenario of the spec\<close>

text \<open>
  The scenario of the spec: the search returns X, Y and Z; the proposals arrive in the order
  Y (cost 9), X (cost 15, not affordable), Z (cost 11). Y is accepted with terms, X and Z
  are declined, and both lists are empty again.
\<close>

lemma spec_scenario:
  "and_then (and_then (and_then
      (handle_search (price_policy 12) [''X'', ''Y'', ''Z''] fresh)
      (on_proposal_received (price_policy 12) (proposal_from ''Y'' 1 9)))
      (on_proposal_received (price_policy 12) (proposal_from ''X'' 0 15)))
      (on_proposal_received (price_policy 12) (proposal_from ''Z'' 2 11))
   = Inr (fresh\<lparr>is_searching := False,
           fipa_dialogues :=
             [\<lparr>counterparty = ''X'', dstate = DECLINED, terms = None\<rparr>,
              \<lparr>counterparty = ''Y'', dstate = ACCEPTED, terms = Some (9, ''Y'')\<rparr>,
              \<lparr>counterparty = ''Z'', dstate = DECLINED, terms = None\<rparr>],
           dialogue_ops :=
             [Created 0 ''X'', Created 1 ''Y'', Created 2 ''Z'',
              TermsSet 1 (9, ''Y''), Replied 1 ACCEPT, Replied 0 DECLINE, Replied 2 DECLINE],
           outbox :=
             [\<lparr>out_performative = CFP, out_to = ''X'', out_reference = 0, out_query = Some ''carpark''\<rparr>,
              \<lparr>out_performative = CFP, out_to = ''Y'', out_reference = 1, out_query = Some ''carpark''\<rparr>,
              \<lparr>out_performative = CFP, out_to = ''Z'', out_reference = 2, out_query = Some ''carpark''\<rparr>,
              \<lparr>out_performative = ACCEPT, out_to = ''Y'', out_reference = 1, out_query = None\<rparr>,
              \<lparr>out_performative = DECLINE, out_to = ''X'', out_reference = 0, out_query = None\<rparr>,
              \<lparr>out_performative = DECLINE, out_to = ''Z'', out_reference = 2, out_query = None\<rparr>],
           logger :=
             [FoundAgentsStopping [''X'', ''Y'', ''Z''], SendingCFP ''X'', SendingCFP ''Y'',
              SendingCFP ''Z'', CFPsSent 3, ReceivedProposal 9 ''Y'', ReceivedProposal 15 ''X'',
              ReceivedProposal 11 ''Z'', MakingDecision, SendingDecision (Some ACCEPT) ''Y'',
              SendingDecision (Some DECLINE) ''X'', SendingDecision (Some DECLINE) ''Z'']\<rparr>)"
  by (simp add: and_then_def handle_search_def create_def on_proposal_received_def
      handler_defs example_defs)

section \<open>Requests to the registry\<close>

text \<open>
  The responses the tests of \<^verbatim>\<open>request_api\<close> feed to the client
  (\<^verbatim>\<open>tests/test_cli/test_registry/test_utils.py\<close>) and the results they expect: the body for
  200 and 201, an error for 404, 403, 400, 409 and 500 and for a connection error.
\<close>

lemma request_api_tests:
  "fst (request_api [Response 200 [(''correct'', ''json'')]]) = Inr [(''correct'', ''json'')]"
  "fst (request_api [Response 201 [(''correct'', ''json'')]]) = Inr [(''correct'', ''json'')]"
  "isl (fst (request_api [Response 404 []]))"
  "isl (fst (request_api [Response 403 []]))"
  "isl (fst (request_api [Response 400 []]))"
  "isl (fst (request_api [Response 409 [(''detail'', ''some'')]]))"
  "isl (fst (request_api [Response 500 []]))"
  "isl (fst (request_api [ConnectionError]))"
  by (simp_all add: request_api_def)

text \<open>
  Claim C9. A request returns the parsed body when the server answers with a 2xx status.
  Every other status, 400, 403, 404, 409 and 500 among them, and every connection failure
  ends in an error for the user; the error of a 409 carries the \<^verbatim>\<open>detail\<close> field of the body.
  In each case the client has made one attempt: the answers to later attempts are untouched.
\<close>

theorem request_api_returns_body_or_error:
  "(200 \<le> s \<and> s < 300 \<longrightarrow> request_api (Response s body # net) = (Inr body, net))
   \<and> (\<not> (200 \<le> s \<and> s < 300) \<longrightarrow>
        (\<exists>e. request_api (Response s body # net) = (Inl e, net)))
   \<and> (\<forall>s \<in> {400, 403, 404, 409, 500}.
        \<exists>e. request_api (Response s body # net) = (Inl e, net))
   \<and> request_api (Response 409 body # net) = (Inl (Conflict (map_of body ''detail'')), net)
   \<and> request_api (ConnectionError # net) = (Inl ServerNotResponding, net)
   \<and> request_api [] = (Inl ServerNotResponding, [])"
  by (simp add: request_api_def)

theorem request_api_returns_body_or_error_witness:
  "request_api [Response 201 [(''file'', ''url'')], Response 200 []] = (Inr [(''file'', ''url'')], [Response 200 []])
   \<and> (\<exists>e. request_api [Response 404 [], Response 200 []] = (Inl e, [Response 200 []]))
   \<and> request_api [Response 409 [(''detail'', ''some'')], Response 200 []]
       = (Inl (Conflict (Some ''some'')), [Response 200 []])
   \<and> request_api [ConnectionError, Response 200 []] = (Inl ServerNotResponding, [Response 200 []])"
proof -
  note inst = request_api_returns_body_or_error
  have 1: "request_api [Response 201 [(''file'', ''url'')], Response 200 []]
      = (Inr [(''file'', ''url'')], [Response 200 []])"
    using inst[of 201 "[(''file'', ''url'')]" "[Response 200 []]", THEN conjunct1] by simp
  have 2: "\<exists>e. request_api [Response 404 [], Response 200 []] = (Inl e, [Response 200 []])"
    using inst[of 404 "[]" "[Response 200 []]", THEN conjunct2, THEN conjunct1] by simp
  have "request_api [Response 409 [(''detail'', ''some'')], Response 200 []]
      = (Inl (Conflict (map_of [(''detail'', ''some'')] ''detail'')), [Response 200 []])"
    using inst[of _ "[(''detail'', ''some'')]" "[Response 200 []]"] by blast
  then have 3: "request_api [Response 409 [(''detail'', ''some'')], Response 200 []]
       = (Inl (Conflict (Some ''some'')), [Response 200 []])"
    by simp
  have 4: "request_api [ConnectionError, Response 200 []] = (Inl ServerNotResponding, [Response 200 []])"
    using inst[of _ _ "[Response 200 []]"] by blast
  show ?thesis using 1 2 3 4 by (intro conjI)
qed

end
